theory Spec2Isabelle
  imports Complex_Main
begin

section \<open>Tangent raycasting: the geometric visibility core\<close>

text \<open>
  A shallow embedding of the four functions of \<^verbatim>\<open>tangent raycasting/main.py\<close>:
  \<^verbatim>\<open>get_tangents\<close>, \<^verbatim>\<open>circle_line_intersection\<close>, \<^verbatim>\<open>get_first_intersection\<close> and
  \<^verbatim>\<open>is_visible\<close>.

  Numbers are modelled as \<^typ>\<open>real\<close>: Python's floats are idealised to exact real
  arithmetic, so rounding, overflow and NaN are outside the model. Everything else is
  as in the source: a circle is the tuple \<open>(x, y, r)\<close>, a point the pair \<open>[x, y]\<close>, a
  segment or ray the list \<open>[x1, y1, x2, y2]\<close>; the two exceptions the arithmetic can
  raise (\<^verbatim>\<open>/\<close> by zero, \<^verbatim>\<open>math.sqrt\<close> of a negative number) are values of a sum type.
\<close>

subsection \<open>Data and Python's partial arithmetic\<close>

datatype py_error = ZeroDivisionError | ValueError

type_synonym point = "real \<times> real"
type_synonym circle = "real \<times> real \<times> real"
type_synonym segment = "real \<times> real \<times> real \<times> real"

text \<open>\<^verbatim>\<open>a / b\<close> raises \<^verbatim>\<open>ZeroDivisionError\<close> when \<open>b\<close> is zero.\<close>

definition py_div :: "real \<Rightarrow> real \<Rightarrow> py_error + real" where
  "py_div a b = (if b = 0 then Inl ZeroDivisionError else Inr (a / b))"

text \<open>\<^verbatim>\<open>math.sqrt(a)\<close> raises \<^verbatim>\<open>ValueError\<close> when \<open>a\<close> is negative.\<close>

definition py_sqrt :: "real \<Rightarrow> py_error + real" where
  "py_sqrt a = (if a < 0 then Inl ValueError else Inr (sqrt a))"

subsection \<open>\<^verbatim>\<open>get_tangents\<close>\<close>

text \<open>
  The body of the inner loop \<^verbatim>\<open>for sign2 in [1, -1]\<close> (lines 26--30): the normal
  \<open>(nx, ny)\<close> and the segment appended to \<^verbatim>\<open>res\<close>.
\<close>

definition tangent_segment ::
  "real \<Rightarrow> real \<Rightarrow> real \<Rightarrow> real \<Rightarrow> real \<Rightarrow> real \<Rightarrow> real \<Rightarrow> real \<Rightarrow> real \<Rightarrow> real \<Rightarrow> real \<Rightarrow> real \<Rightarrow> segment" where
  "tangent_segment x1 y1 r1 x2 y2 r2 vx vy sign1 c h sign2 =
     (let nx = vx * c - sign2 * h * vy;
          ny = vy * c + sign2 * h * vx
      in (x1 + r1 * nx, y1 + r1 * ny, x2 + sign1 * r2 * nx, y2 + sign1 * r2 * ny))"

text \<open>
  The outer loop \<^verbatim>\<open>for sign1 in [1, -1]\<close> (lines 19--30), over the signs still to be
  visited, with \<^verbatim>\<open>res\<close> as accumulator. \<^verbatim>\<open>continue\<close> goes on with the next sign and
  leaves \<^verbatim>\<open>res\<close> as it is.
\<close>

fun tangents_loop ::
  "real \<Rightarrow> real \<Rightarrow> real \<Rightarrow> real \<Rightarrow> real \<Rightarrow> real \<Rightarrow> real \<Rightarrow> real \<Rightarrow> real \<Rightarrow> real list \<Rightarrow> segment list
     \<Rightarrow> py_error + segment list" where
  "tangents_loop x1 y1 r1 x2 y2 r2 d vx vy [] res = Inr res"
| "tangents_loop x1 y1 r1 x2 y2 r2 d vx vy (sign1 # signs) res =
     (case py_div (r1 - sign1 * r2) d of
        Inl e \<Rightarrow> Inl e
      | Inr c \<Rightarrow>
          if c * c > 1 then tangents_loop x1 y1 r1 x2 y2 r2 d vx vy signs res
          else (case py_sqrt (max 0 (1 - c * c)) of
                  Inl e \<Rightarrow> Inl e
                | Inr h \<Rightarrow>
                    tangents_loop x1 y1 r1 x2 y2 r2 d vx vy signs
                      (res @ map (tangent_segment x1 y1 r1 x2 y2 r2 vx vy sign1 c h) [1, -1])))"

definition get_tangents ::
  "real \<Rightarrow> real \<Rightarrow> real \<Rightarrow> real \<Rightarrow> real \<Rightarrow> real \<Rightarrow> py_error + segment list" where
  "get_tangents x1 y1 r1 x2 y2 r2 =
     (let d_sq = (x1 - x2)\<^sup>2 + (y1 - y2)\<^sup>2
      in if d_sq \<le> (r1 - r2)\<^sup>2 then Inr []
         else (case py_sqrt d_sq of
                 Inl e \<Rightarrow> Inl e
               | Inr d \<Rightarrow>
                   (case py_div (x2 - x1) d of
                      Inl e \<Rightarrow> Inl e
                    | Inr vx \<Rightarrow>
                        (case py_div (y2 - y1) d of
                           Inl e \<Rightarrow> Inl e
                         | Inr vy \<Rightarrow> tangents_loop x1 y1 r1 x2 y2 r2 d vx vy [1, -1] []))))"

subsection \<open>\<^verbatim>\<open>circle_line_intersection\<close>\<close>

text \<open>The filter on the parameter \<open>t\<close> (lines 48 and 59).\<close>

definition within_bounds :: "bool \<Rightarrow> bool \<Rightarrow> real \<Rightarrow> bool" where
  "within_bounds lb ub t = ((\<not> lb \<or> t \<ge> 0) \<and> (\<not> ub \<or> t \<le> 1))"

text \<open>
  The loop \<^verbatim>\<open>for sign in [-1, 1]\<close> of the two-root branch (lines 57--62), with
  \<^verbatim>\<open>intersections\<close> as accumulator. \<^verbatim>\<open>math.sqrt(det)\<close> and the division are evaluated
  anew for each sign, as in the source.
\<close>

fun roots_loop ::
  "real \<Rightarrow> real \<Rightarrow> real \<Rightarrow> real \<Rightarrow> real \<Rightarrow> real \<Rightarrow> real \<Rightarrow> bool \<Rightarrow> bool \<Rightarrow> real list \<Rightarrow> point list
     \<Rightarrow> py_error + point list" where
  "roots_loop x1 y1 dx dy A B det lb ub [] intersections = Inr intersections"
| "roots_loop x1 y1 dx dy A B det lb ub (sign # signs) intersections =
     (case py_sqrt det of
        Inl e \<Rightarrow> Inl e
      | Inr s \<Rightarrow>
          (case py_div (- B + sign * s) (2 * A) of
             Inl e \<Rightarrow> Inl e
           | Inr t \<Rightarrow>
               roots_loop x1 y1 dx dy A B det lb ub signs
                 (if within_bounds lb ub t then intersections @ [(x1 + t * dx, y1 + t * dy)]
                  else intersections)))"

definition circle_line_intersection ::
  "real \<Rightarrow> real \<Rightarrow> real \<Rightarrow> real \<Rightarrow> real \<Rightarrow> real \<Rightarrow> real \<Rightarrow> bool \<Rightarrow> bool \<Rightarrow> py_error + point list" where
  "circle_line_intersection cx cy cr x1 y1 x2 y2 lb ub =
     (let dx = x2 - x1; dy = y2 - y1;
          A = dx\<^sup>2 + dy\<^sup>2;
          B = 2 * (dx * (x1 - cx) + dy * (y1 - cy));
          C = (x1 - cx)\<^sup>2 + (y1 - cy)\<^sup>2 - cr\<^sup>2;
          det = B\<^sup>2 - 4 * A * C
      in if det < 0 then Inr []
         else if det = 0 then
           (case py_div (- B) (2 * A) of
              Inl e \<Rightarrow> Inl e
            | Inr t \<Rightarrow>
                if within_bounds lb ub t then Inr [(x1 + t * dx, y1 + t * dy)] else Inr [])
         else roots_loop x1 y1 dx dy A B det lb ub [-1, 1] [])"

subsection \<open>\<^verbatim>\<open>get_first_intersection\<close>\<close>

text \<open>
  The inner loop \<^verbatim>\<open>for i in intersections\<close> (lines 72--77). \<^verbatim>\<open>first_intersection\<close> is
  \<^verbatim>\<open>None\<close> or a pair \<open>(i, c)\<close>; a pair is always truthy, so \<^verbatim>\<open>not first_intersection\<close>
  is the test for \<^verbatim>\<open>None\<close>.
\<close>

fun nearer_loop ::
  "circle \<Rightarrow> segment \<Rightarrow> point list \<Rightarrow> (point \<times> circle) option \<Rightarrow> (point \<times> circle) option" where
  "nearer_loop c ray [] first_intersection = first_intersection"
| "nearer_loop c ray (i # is) first_intersection =
     nearer_loop c ray is
       (case first_intersection of
          None \<Rightarrow> Some (i, c)
        | Some (p, c') \<Rightarrow>
            if \<bar>fst i - fst ray\<bar> < \<bar>fst p - fst ray\<bar> then Some (i, c)
            else first_intersection)"

text \<open>
  The outer loop \<^verbatim>\<open>for c in circles\<close> (lines 69--77). The call passes \<^verbatim>\<open>ub=False\<close> and
  leaves \<^verbatim>\<open>lb\<close> at its default \<^verbatim>\<open>True\<close>. An exception of the intersection routine ends
  the loop.
\<close>

fun first_loop ::
  "circle list \<Rightarrow> segment \<Rightarrow> (point \<times> circle) option \<Rightarrow> py_error + (point \<times> circle) option" where
  "first_loop [] ray first_intersection = Inr first_intersection"
| "first_loop (c # cs) ray first_intersection =
     (case ray of (x1, y1, x2, y2) \<Rightarrow>
        (case c of (cx, cy, cr) \<Rightarrow>
           (case circle_line_intersection cx cy cr x1 y1 x2 y2 True False of
              Inl e \<Rightarrow> Inl e
            | Inr intersections \<Rightarrow>
                first_loop cs ray
                  (if intersections \<noteq> [] then nearer_loop c ray intersections first_intersection
                   else first_intersection))))"

definition get_first_intersection ::
  "circle list \<Rightarrow> segment \<Rightarrow> py_error + (point \<times> circle) option" where
  "get_first_intersection circles ray = first_loop circles ray None"

subsection \<open>\<^verbatim>\<open>is_visible\<close>\<close>

text \<open>
  The loop \<^verbatim>\<open>for t in tangents\<close> (lines 84--87): \<^verbatim>\<open>return False\<close> at the first tangent
  with a hit, \<^verbatim>\<open>return True\<close> after the last.
\<close>

fun visible_loop :: "circle list \<Rightarrow> segment list \<Rightarrow> py_error + bool" where
  "visible_loop obstacles [] = Inr True"
| "visible_loop obstacles (t # ts) =
     (case get_first_intersection obstacles t of
        Inl e \<Rightarrow> Inl e
      | Inr hit \<Rightarrow> if hit \<noteq> None then Inr False else visible_loop obstacles ts)"

text \<open>
  \<^verbatim>\<open>is_visible\<close> reads \<^verbatim>\<open>source[0]\<close>, \<^verbatim>\<open>source[1]\<close>, \<^verbatim>\<open>target[0]\<close> and \<^verbatim>\<open>target[1]\<close>
  only, and passes the literal \<open>0\<close> for both radii (line 82).
\<close>

definition is_visible :: "circle \<Rightarrow> circle \<Rightarrow> circle list \<Rightarrow> py_error + bool" where
  "is_visible target source obstacles =
     (case get_tangents (fst source) (fst (snd source)) 0 (fst target) (fst (snd target)) 0 of
        Inl e \<Rightarrow> Inl e
      | Inr tangents \<Rightarrow> visible_loop obstacles tangents)"

section \<open>Auxiliary notions\<close>

text \<open>
  What one pass of the loop over \<open>sign1\<close> appends to \<^verbatim>\<open>res\<close> when the division by \<open>d\<close>
  succeeds: nothing if \<open>c * c > 1\<close>, the two segments of the family otherwise. Lemma
  \<open>tangents_loop_total\<close> relates it to \<open>tangents_loop\<close>.
\<close>

definition tangent_family ::
  "real \<Rightarrow> real \<Rightarrow> real \<Rightarrow> real \<Rightarrow> real \<Rightarrow> real \<Rightarrow> real \<Rightarrow> real \<Rightarrow> real \<Rightarrow> real \<Rightarrow> segment list" where
  "tangent_family x1 y1 r1 x2 y2 r2 d vx vy sign1 =
     (let c = (r1 - sign1 * r2) / d
      in if c * c > 1 then []
         else map (tangent_segment x1 y1 r1 x2 y2 r2 vx vy sign1 c (sqrt (max 0 (1 - c * c)))) [1, -1])"

text \<open>The parameters at which the line meets the circle, in the order the source visits them.\<close>

definition line_roots :: "real \<Rightarrow> real \<Rightarrow> real \<Rightarrow> real list" where
  "line_roots A B det =
     (if det < 0 then []
      else if det = 0 then [- B / (2 * A)]
      else map (\<lambda>sign. (- B + sign * sqrt det) / (2 * A)) [-1, 1])"

text \<open>
  What the call on line 70 returns for one obstacle: the intersection routine with
  \<^verbatim>\<open>lb\<close> at its default \<^verbatim>\<open>True\<close> and \<^verbatim>\<open>ub=False\<close>. Lemma \<open>ray_hits_total\<close> shows that for a ray
  with distinct endpoints the call does not raise, so that the empty list below is never
  taken there.
\<close>

definition ray_hits :: "circle \<Rightarrow> segment \<Rightarrow> point list" where
  "ray_hits c ray =
     (case ray of (x1, y1, x2, y2) \<Rightarrow>
        (case c of (cx, cy, cr) \<Rightarrow>
           (case circle_line_intersection cx cy cr x1 y1 x2 y2 True False of
              Inl e \<Rightarrow> []
            | Inr intersections \<Rightarrow> intersections)))"

text \<open>One pass of the inner loop of \<open>get_first_intersection\<close>: lines 73--77.\<close>

definition nearer_step :: "circle \<Rightarrow> segment \<Rightarrow> point \<Rightarrow> (point \<times> circle) option \<Rightarrow> (point \<times> circle) option" where
  "nearer_step c ray i first_intersection =
     (case first_intersection of
        None \<Rightarrow> Some (i, c)
      | Some (p, c') \<Rightarrow>
          if \<bar>fst i - fst ray\<bar> < \<bar>fst p - fst ray\<bar> then Some (i, c)
          else first_intersection)"

text \<open>The locals \<^verbatim>\<open>A\<close>, \<^verbatim>\<open>B\<close>, \<^verbatim>\<open>C\<close> and \<^verbatim>\<open>det\<close> of \<^verbatim>\<open>circle_line_intersection\<close> (lines 37--40).\<close>

definition quadratic_A :: "real \<Rightarrow> real \<Rightarrow> real \<Rightarrow> real \<Rightarrow> real" where
  "quadratic_A x1 y1 x2 y2 = (x2 - x1)\<^sup>2 + (y2 - y1)\<^sup>2"

definition quadratic_B :: "real \<Rightarrow> real \<Rightarrow> real \<Rightarrow> real \<Rightarrow> real \<Rightarrow> real \<Rightarrow> real" where
  "quadratic_B cx cy x1 y1 x2 y2 = 2 * ((x2 - x1) * (x1 - cx) + (y2 - y1) * (y1 - cy))"

definition quadratic_C :: "real \<Rightarrow> real \<Rightarrow> real \<Rightarrow> real \<Rightarrow> real \<Rightarrow> real" where
  "quadratic_C cx cy cr x1 y1 = (x1 - cx)\<^sup>2 + (y1 - cy)\<^sup>2 - cr\<^sup>2"

definition discriminant :: "real \<Rightarrow> real \<Rightarrow> real \<Rightarrow> real \<Rightarrow> real \<Rightarrow> real \<Rightarrow> real \<Rightarrow> real" where
  "discriminant cx cy cr x1 y1 x2 y2 =
     (quadratic_B cx cy x1 y1 x2 y2)\<^sup>2 - 4 * quadratic_A x1 y1 x2 y2 * quadratic_C cx cy cr x1 y1"

section \<open>Properties of \<^verbatim>\<open>get_tangents\<close>\<close>

subsection \<open>The arithmetic never raises once the centres are apart\<close>

lemma py_div_nonzero: "b \<noteq> 0 \<Longrightarrow> py_div a b = Inr (a / b)"
  by (simp add: py_div_def)

lemma py_sqrt_nonneg: "0 \<le> a \<Longrightarrow> py_sqrt a = Inr (sqrt a)"
  by (simp add: py_sqrt_def)

lemma tangents_loop_total:
  "d \<noteq> 0 \<Longrightarrow>
   tangents_loop x1 y1 r1 x2 y2 r2 d vx vy signs res =
     Inr (res @ concat (map (tangent_family x1 y1 r1 x2 y2 r2 d vx vy) signs))"
  by (induction signs arbitrary: res)
     (simp_all add: py_div_nonzero py_sqrt_nonneg tangent_family_def Let_def)

lemma centres_apart:
  assumes "(x1 - x2)\<^sup>2 + (y1 - y2)\<^sup>2 > (r1 - r2)\<^sup>2"
  shows "0 < (x1 - x2)\<^sup>2 + (y1 - y2)\<^sup>2" and "0 < sqrt ((x1 - x2)\<^sup>2 + (y1 - y2)\<^sup>2)"
proof -
  have "0 \<le> (r1 - r2)\<^sup>2" by simp
  with assms show "0 < (x1 - x2)\<^sup>2 + (y1 - y2)\<^sup>2" by linarith
  then show "0 < sqrt ((x1 - x2)\<^sup>2 + (y1 - y2)\<^sup>2)" by (rule real_sqrt_gt_zero)
qed

lemma get_tangents_apart:
  assumes "(x1 - x2)\<^sup>2 + (y1 - y2)\<^sup>2 > (r1 - r2)\<^sup>2"
  shows "get_tangents x1 y1 r1 x2 y2 r2 =
           (let d = sqrt ((x1 - x2)\<^sup>2 + (y1 - y2)\<^sup>2); vx = (x2 - x1) / d; vy = (y2 - y1) / d
            in Inr (tangent_family x1 y1 r1 x2 y2 r2 d vx vy 1 @
                    tangent_family x1 y1 r1 x2 y2 r2 d vx vy (-1)))"
proof -
  note pos = centres_apart [OF assms]
  have ne: "sqrt ((x1 - x2)\<^sup>2 + (y1 - y2)\<^sup>2) \<noteq> 0" using pos(2) by linarith
  have nn: "0 \<le> (x1 - x2)\<^sup>2 + (y1 - y2)\<^sup>2" using pos(1) by linarith
  have guard: "\<not> (x1 - x2)\<^sup>2 + (y1 - y2)\<^sup>2 \<le> (r1 - r2)\<^sup>2" using assms by simp
  show ?thesis
    unfolding get_tangents_def Let_def
    by (simp only: guard if_False py_sqrt_nonneg [OF nn] py_div_nonzero [OF ne]
          sum.case tangents_loop_total [OF ne] list.map concat.simps append_Nil append_Nil2)
qed

lemma length_tangent_family:
  "length (tangent_family x1 y1 r1 x2 y2 r2 d vx vy s) = 0 \<or>
   length (tangent_family x1 y1 r1 x2 y2 r2 d vx vy s) = 2"
  by (simp add: tangent_family_def Let_def)

lemma external_family_feasible:
  assumes "(x1 - x2)\<^sup>2 + (y1 - y2)\<^sup>2 > (r1 - r2)\<^sup>2"
  shows "\<not> ((r1 - 1 * r2) / sqrt ((x1 - x2)\<^sup>2 + (y1 - y2)\<^sup>2)) *
            ((r1 - 1 * r2) / sqrt ((x1 - x2)\<^sup>2 + (y1 - y2)\<^sup>2)) > 1"
proof -
  let ?q = "(x1 - x2)\<^sup>2 + (y1 - y2)\<^sup>2"
  note pos = centres_apart [OF assms]
  have sq: "sqrt ?q * sqrt ?q = ?q" using pos(1) by simp
  have "((r1 - 1 * r2) / sqrt ?q) * ((r1 - 1 * r2) / sqrt ?q) = (r1 - r2)\<^sup>2 / ?q"
    by (simp add: power2_eq_square sq)
  also have "\<dots> < 1" using assms pos(1) by simp
  finally show ?thesis by simp
qed

lemma length_external_family:
  assumes "(x1 - x2)\<^sup>2 + (y1 - y2)\<^sup>2 > (r1 - r2)\<^sup>2"
  shows "length (tangent_family x1 y1 r1 x2 y2 r2 (sqrt ((x1 - x2)\<^sup>2 + (y1 - y2)\<^sup>2)) vx vy 1) = 2"
  using external_family_feasible [OF assms] by (simp add: tangent_family_def Let_def)

subsection \<open>Tangent points lie on the circles\<close>

lemma unit_direction:
  assumes "0 < (x1 - x2)\<^sup>2 + (y1 - y2)\<^sup>2"
  shows "((x2 - x1) / sqrt ((x1 - x2)\<^sup>2 + (y1 - y2)\<^sup>2))\<^sup>2 +
         ((y2 - y1) / sqrt ((x1 - x2)\<^sup>2 + (y1 - y2)\<^sup>2))\<^sup>2 = 1"
proof -
  let ?q = "(x1 - x2)\<^sup>2 + (y1 - y2)\<^sup>2"
  have nn: "0 \<le> ?q" and ne: "?q \<noteq> 0" using assms by linarith+
  have sq: "(sqrt ?q)\<^sup>2 = ?q" using nn by (rule real_sqrt_pow2)
  have "((x2 - x1) / sqrt ?q)\<^sup>2 + ((y2 - y1) / sqrt ?q)\<^sup>2 =
        (x2 - x1)\<^sup>2 / ?q + (y2 - y1)\<^sup>2 / ?q"
    by (simp only: power_divide sq)
  also have "\<dots> = ((x2 - x1)\<^sup>2 + (y2 - y1)\<^sup>2) / ?q"
    by (simp only: add_divide_distrib)
  also have "(x2 - x1)\<^sup>2 + (y2 - y1)\<^sup>2 = ?q" by (simp add: power2_commute)
  also have "?q / ?q = 1" using ne by (rule divide_self)
  finally show ?thesis .
qed

lemma unit_normal:
  fixes vx vy c s :: real
  assumes v: "vx\<^sup>2 + vy\<^sup>2 = 1" and c: "\<not> c * c > 1" and s: "s = 1 \<or> s = -1"
  shows "(vx * c - s * sqrt (max 0 (1 - c * c)) * vy)\<^sup>2 +
         (vy * c + s * sqrt (max 0 (1 - c * c)) * vx)\<^sup>2 = 1"
proof -
  let ?h = "sqrt (max 0 (1 - c * c))"
  have h2: "?h\<^sup>2 = 1 - c\<^sup>2" using c by (simp add: power2_eq_square)
  have s2: "s\<^sup>2 = 1" using s by auto
  have "(vx * c - s * ?h * vy)\<^sup>2 + (vy * c + s * ?h * vx)\<^sup>2 =
        (vx\<^sup>2 + vy\<^sup>2) * (c\<^sup>2 + s\<^sup>2 * ?h\<^sup>2)"
    by (simp add: power2_eq_square algebra_simps)
  also have "\<dots> = 1" by (simp add: v s2 h2)
  finally show ?thesis .
qed

lemma tangent_segment_endpoints:
  fixes vx vy c s :: real
  assumes v: "vx\<^sup>2 + vy\<^sup>2 = 1" and c: "\<not> c * c > 1" and s: "s = 1 \<or> s = -1"
    and s1: "sign1 = 1 \<or> sign1 = -1"
    and seg: "(px, py, qx, qy) = tangent_segment x1 y1 r1 x2 y2 r2 vx vy sign1 c (sqrt (max 0 (1 - c * c))) s"
  shows "sqrt ((px - x1)\<^sup>2 + (py - y1)\<^sup>2) = \<bar>r1\<bar> \<and> sqrt ((qx - x2)\<^sup>2 + (qy - y2)\<^sup>2) = \<bar>r2\<bar>"
proof -
  define nx where "nx = vx * c - s * sqrt (max 0 (1 - c * c)) * vy"
  define ny where "ny = vy * c + s * sqrt (max 0 (1 - c * c)) * vx"
  have n: "nx\<^sup>2 + ny\<^sup>2 = 1" unfolding nx_def ny_def by (rule unit_normal [OF v c s])
  have p: "px - x1 = r1 * nx" "py - y1 = r1 * ny" "qx - x2 = sign1 * r2 * nx" "qy - y2 = sign1 * r2 * ny"
    using seg by (simp_all add: tangent_segment_def Let_def nx_def ny_def)
  have s12: "sign1\<^sup>2 = 1" using s1 by auto
  have "(px - x1)\<^sup>2 + (py - y1)\<^sup>2 = r1\<^sup>2 * (nx\<^sup>2 + ny\<^sup>2)"
    by (simp only: p power_mult_distrib distrib_left)
  then have a: "(px - x1)\<^sup>2 + (py - y1)\<^sup>2 = r1\<^sup>2" by (simp only: n mult_1_right)
  have "(qx - x2)\<^sup>2 + (qy - y2)\<^sup>2 = sign1\<^sup>2 * r2\<^sup>2 * (nx\<^sup>2 + ny\<^sup>2)"
    by (simp only: p power_mult_distrib distrib_left)
  then have b: "(qx - x2)\<^sup>2 + (qy - y2)\<^sup>2 = r2\<^sup>2" by (simp only: n s12 mult_1_right mult_1_left)
  show ?thesis by (simp only: a b real_sqrt_abs simp_thms)
qed

lemma tangent_family_endpoints:
  assumes s1: "sign1 = 1 \<or> sign1 = -1" and v: "vx\<^sup>2 + vy\<^sup>2 = 1"
    and mem: "(px, py, qx, qy) \<in> set (tangent_family x1 y1 r1 x2 y2 r2 d vx vy sign1)"
  shows "sqrt ((px - x1)\<^sup>2 + (py - y1)\<^sup>2) = \<bar>r1\<bar> \<and> sqrt ((qx - x2)\<^sup>2 + (qy - y2)\<^sup>2) = \<bar>r2\<bar>"
proof -
  define c where "c = (r1 - sign1 * r2) / d"
  have fam: "tangent_family x1 y1 r1 x2 y2 r2 d vx vy sign1 =
          (if c * c > 1 then []
           else map (tangent_segment x1 y1 r1 x2 y2 r2 vx vy sign1 c (sqrt (max 0 (1 - c * c)))) [1, -1])"
    unfolding tangent_family_def c_def Let_def ..
  have c: "\<not> c * c > 1"
  proof
    assume "c * c > 1"
    with fam have "tangent_family x1 y1 r1 x2 y2 r2 d vx vy sign1 = []" by (simp only: if_True)
    with mem show False by simp
  qed
  with fam have "tangent_family x1 y1 r1 x2 y2 r2 d vx vy sign1 =
      map (tangent_segment x1 y1 r1 x2 y2 r2 vx vy sign1 c (sqrt (max 0 (1 - c * c)))) [1, -1]"
    by (simp only: if_False)
  with mem have "(px, py, qx, qy) = tangent_segment x1 y1 r1 x2 y2 r2 vx vy sign1 c (sqrt (max 0 (1 - c * c))) 1 \<or>
                 (px, py, qx, qy) = tangent_segment x1 y1 r1 x2 y2 r2 vx vy sign1 c (sqrt (max 0 (1 - c * c))) (- 1)"
    by (simp only: list.map list.set insert_iff empty_iff simp_thms)
  then show ?thesis
  proof
    assume seg: "(px, py, qx, qy) = tangent_segment x1 y1 r1 x2 y2 r2 vx vy sign1 c (sqrt (max 0 (1 - c * c))) 1"
    have "(1::real) = 1 \<or> (1::real) = - 1" by simp
    then show ?thesis by (rule tangent_segment_endpoints [OF v c _ s1 seg])
  next
    assume seg: "(px, py, qx, qy) = tangent_segment x1 y1 r1 x2 y2 r2 vx vy sign1 c (sqrt (max 0 (1 - c * c))) (- 1)"
    have "(- 1::real) = 1 \<or> (- 1::real) = - 1" by simp
    then show ?thesis by (rule tangent_segment_endpoints [OF v c _ s1 seg])
  qed
qed

subsection \<open>Point circles and a concrete pair of circles\<close>

lemma get_tangents_points:
  assumes "x1 \<noteq> x2 \<or> y1 \<noteq> y2"
  shows "get_tangents x1 y1 0 x2 y2 0 =
           Inr [(x1, y1, x2, y2), (x1, y1, x2, y2), (x1, y1, x2, y2), (x1, y1, x2, y2)]"
proof -
  have "(x1 - x2)\<^sup>2 + (y1 - y2)\<^sup>2 > 0"
    using assms by (simp add: sum_power2_gt_zero_iff)
  then have apart: "(x1 - x2)\<^sup>2 + (y1 - y2)\<^sup>2 > ((0::real) - 0)\<^sup>2" by simp
  show ?thesis
    by (simp add: get_tangents_apart [OF apart] Let_def tangent_family_def tangent_segment_def)
qed

lemma sqrt_400: "sqrt 400 = 20"
  by (rule real_sqrt_unique) simp_all

lemma sqrt_4: "sqrt 4 = 2"
  by (rule real_sqrt_unique) simp_all

lemma sqrt_three_quarters: "sqrt (3 / 4) = sqrt 3 / 2"
  by (simp only: real_sqrt_divide sqrt_4)

lemma tangents_scenario:
  "get_tangents 0 0 5 20 0 5 =
     Inr [(0, 5, 20, 5), (0, - 5, 20, - 5),
          (5 / 2, 5 * sqrt 3 / 2, 35 / 2, - (5 * sqrt 3 / 2)),
          (5 / 2, - (5 * sqrt 3 / 2), 35 / 2, 5 * sqrt 3 / 2)]"
proof -
  have apart: "((0::real) - 20)\<^sup>2 + (0 - 0)\<^sup>2 > (5 - 5)\<^sup>2" by simp
  have d: "sqrt (((0::real) - 20)\<^sup>2 + (0 - 0)\<^sup>2) = 20" using sqrt_400 by simp
  have h: "max 0 (1 - (1 / 2) * (1 / 2)) = (3 / 4 :: real)" by simp
  show ?thesis
    unfolding get_tangents_apart [OF apart] Let_def d tangent_family_def tangent_segment_def
    by (simp add: sqrt_three_quarters)
qed

subsection \<open>Nested or concentric circles have no tangents\<close>

text \<open>
  C5. For all circles A and B whose squared centre distance is at most \<open>(rA - rB)\<^sup>2\<close>
  (one circle inside the other, or concentric circles), \<open>get_tangents\<close> returns the
  empty list, as an ordinary result and not as an error.
\<close>

theorem get_tangents_nested_empty:
  "(x1 - x2)\<^sup>2 + (y1 - y2)\<^sup>2 \<le> (r1 - r2)\<^sup>2 \<Longrightarrow> get_tangents x1 y1 r1 x2 y2 r2 = Inr []"
  by (simp add: get_tangents_def)

theorem get_tangents_nested_empty_witness:
  "(0 - 1)\<^sup>2 + (0 - 0)\<^sup>2 \<le> ((5::real) - 2)\<^sup>2 \<and> get_tangents 0 0 5 1 0 2 = Inr []"
  using get_tangents_nested_empty [of 0 1 0 0 5 2] by simp

subsection \<open>The number of tangents\<close>

text \<open>
  C10. For every pair of input circles \<open>get_tangents\<close> returns a list of exactly 0, 2 or
  4 segments, never 1 or 3: each \<open>sign1\<close> family contributes both of its tangents or
  none, and the family of \<open>sign1 = +1\<close> is feasible whenever the squared centre distance
  exceeds \<open>(rA - rB)\<^sup>2\<close>, so that the list is empty only when the guard of line 11 holds.
\<close>

theorem get_tangents_count:
  "\<exists>ts. get_tangents x1 y1 r1 x2 y2 r2 = Inr ts \<and>
        (length ts = 0 \<or> length ts = 2 \<or> length ts = 4) \<and>
        (length ts = 0 \<longleftrightarrow> (x1 - x2)\<^sup>2 + (y1 - y2)\<^sup>2 \<le> (r1 - r2)\<^sup>2)"
proof (cases "(x1 - x2)\<^sup>2 + (y1 - y2)\<^sup>2 \<le> (r1 - r2)\<^sup>2")
  case True
  then show ?thesis by (simp add: get_tangents_def)
next
  case False
  then have apart: "(x1 - x2)\<^sup>2 + (y1 - y2)\<^sup>2 > (r1 - r2)\<^sup>2" by simp
  let ?d = "sqrt ((x1 - x2)\<^sup>2 + (y1 - y2)\<^sup>2)"
  let ?ext = "tangent_family x1 y1 r1 x2 y2 r2 ?d ((x2 - x1) / ?d) ((y2 - y1) / ?d) 1"
  let ?int = "tangent_family x1 y1 r1 x2 y2 r2 ?d ((x2 - x1) / ?d) ((y2 - y1) / ?d) (- 1)"
  have res: "get_tangents x1 y1 r1 x2 y2 r2 = Inr (?ext @ ?int)"
    by (simp add: get_tangents_apart [OF apart] Let_def)
  have e: "length ?ext = 2" by (rule length_external_family [OF apart])
  have i: "length ?int = 0 \<or> length ?int = 2" by (rule length_tangent_family)
  from e i have "length (?ext @ ?int) = 2 \<or> length (?ext @ ?int) = 4" by auto
  with res False show ?thesis by auto
qed

theorem get_tangents_count_witness:
  "\<exists>ts. get_tangents 0 0 5 8 0 5 = Inr ts \<and>
        (length ts = 0 \<or> length ts = 2 \<or> length ts = 4) \<and>
        (length ts = 0 \<longleftrightarrow> ((0::real) - 8)\<^sup>2 + (0 - 0)\<^sup>2 \<le> (5 - 5)\<^sup>2)"
  using get_tangents_count [of 0 0 5 8 0 5] by simp

subsection \<open>Four tangents, with their endpoints on the two circles\<close>

text \<open>
  C4. For all circles A and B (radii at least 0) whose squared centre distance exceeds
  \<open>(rA - rB)\<^sup>2\<close> and for which \<open>\<bar>c\<bar> \<le> 1\<close> in both \<open>sign1\<close> branches, where
  \<open>c = (rA - sign1 * rB) / d\<close>, \<open>get_tangents\<close> returns exactly 4 segments; the first
  endpoint of each is at distance \<open>rA\<close> from the centre of A and the second at distance
  \<open>rB\<close> from the centre of B, exactly, in real arithmetic.
\<close>

theorem get_tangents_four_on_circles:
  assumes "0 \<le> r1" and "0 \<le> r2"
    and apart: "(x1 - x2)\<^sup>2 + (y1 - y2)\<^sup>2 > (r1 - r2)\<^sup>2"
    and feasible: "\<forall>sign1 \<in> {1, -1}. \<bar>(r1 - sign1 * r2) / sqrt ((x1 - x2)\<^sup>2 + (y1 - y2)\<^sup>2)\<bar> \<le> 1"
  shows "\<exists>ts. get_tangents x1 y1 r1 x2 y2 r2 = Inr ts \<and> length ts = 4 \<and>
           (\<forall>(px, py, qx, qy) \<in> set ts.
              sqrt ((px - x1)\<^sup>2 + (py - y1)\<^sup>2) = r1 \<and> sqrt ((qx - x2)\<^sup>2 + (qy - y2)\<^sup>2) = r2)"
proof -
  define d where "d = sqrt ((x1 - x2)\<^sup>2 + (y1 - y2)\<^sup>2)"
  define vx where "vx = (x2 - x1) / d"
  define vy where "vy = (y2 - y1) / d"
  define ext where "ext = tangent_family x1 y1 r1 x2 y2 r2 d vx vy 1"
  define int where "int = tangent_family x1 y1 r1 x2 y2 r2 d vx vy (- 1)"
  have res: "get_tangents x1 y1 r1 x2 y2 r2 = Inr (ext @ int)"
    by (simp add: get_tangents_apart [OF apart] Let_def ext_def int_def vx_def vy_def d_def)
  have v: "vx\<^sup>2 + vy\<^sup>2 = 1"
    unfolding vx_def vy_def d_def by (rule unit_direction [OF centres_apart(1) [OF apart]])
  have e: "length ext = 2"
    unfolding ext_def d_def by (rule length_external_family [OF apart])
  have "\<bar>(r1 - (- 1) * r2) / d\<bar> \<le> 1" using feasible unfolding d_def by blast
  then have "\<bar>(r1 - (- 1) * r2) / d\<bar> * \<bar>(r1 - (- 1) * r2) / d\<bar> \<le> 1 * 1"
    by (intro mult_mono) simp_all
  then have "\<not> ((r1 - (- 1) * r2) / d) * ((r1 - (- 1) * r2) / d) > 1"
    by (simp only: abs_mult_self_eq not_less mult_1)
  then have i: "length int = 2" by (simp add: int_def tangent_family_def Let_def)
  have p1: "(1::real) = 1 \<or> (1::real) = - 1" and m1: "(- 1::real) = 1 \<or> (- 1::real) = - 1" by simp_all
  have on: "sqrt ((px - x1)\<^sup>2 + (py - y1)\<^sup>2) = r1 \<and> sqrt ((qx - x2)\<^sup>2 + (qy - y2)\<^sup>2) = r2"
    if "(px, py, qx, qy) \<in> set (ext @ int)" for px py qx qy
  proof -
    from that have "(px, py, qx, qy) \<in> set ext \<or> (px, py, qx, qy) \<in> set int" by simp
    then have "sqrt ((px - x1)\<^sup>2 + (py - y1)\<^sup>2) = \<bar>r1\<bar> \<and> sqrt ((qx - x2)\<^sup>2 + (qy - y2)\<^sup>2) = \<bar>r2\<bar>"
    proof
      assume "(px, py, qx, qy) \<in> set ext"
      then show ?thesis unfolding ext_def by (rule tangent_family_endpoints [OF p1 v])
    next
      assume "(px, py, qx, qy) \<in> set int"
      then show ?thesis unfolding int_def by (rule tangent_family_endpoints [OF m1 v])
    qed
    with assms(1,2) show ?thesis by simp
  qed
  from e i have "length (ext @ int) = 4" by simp
  with res on show ?thesis by blast
qed

theorem get_tangents_four_on_circles_witness:
  "(0::real) \<le> 5 \<and> ((0::real) - 20)\<^sup>2 + (0 - 0)\<^sup>2 > (5 - 5)\<^sup>2 \<and>
   \<bar>((5::real) - 1 * 5) / sqrt ((0 - 20)\<^sup>2 + (0 - 0)\<^sup>2)\<bar> \<le> 1 \<and>
   \<bar>((5::real) - (- 1) * 5) / sqrt ((0 - 20)\<^sup>2 + (0 - 0)\<^sup>2)\<bar> \<le> 1 \<and>
   (\<exists>ts. get_tangents 0 0 5 20 0 5 = Inr ts \<and> length ts = 4 \<and>
           (\<forall>(px, py, qx, qy) \<in> set ts.
              sqrt ((px - 0)\<^sup>2 + (py - 0)\<^sup>2) = 5 \<and> sqrt ((qx - 20)\<^sup>2 + (qy - 0)\<^sup>2) = 5))"
proof -
  have d: "sqrt (((0::real) - 20)\<^sup>2 + (0 - 0)\<^sup>2) = 20" using sqrt_400 by simp
  have a: "(0::real) \<le> 5" by simp
  have b: "((0::real) - 20)\<^sup>2 + (0 - 0)\<^sup>2 > (5 - 5)\<^sup>2" by simp
  have c: "\<forall>sign1 \<in> {1, -1}. \<bar>((5::real) - sign1 * 5) / sqrt ((0 - 20)\<^sup>2 + (0 - 0)\<^sup>2)\<bar> \<le> 1"
    unfolding d by simp
  have c1: "\<bar>((5::real) - 1 * 5) / sqrt ((0 - 20)\<^sup>2 + (0 - 0)\<^sup>2)\<bar> \<le> 1"
    and c2: "\<bar>((5::real) - (- 1) * 5) / sqrt ((0 - 20)\<^sup>2 + (0 - 0)\<^sup>2)\<bar> \<le> 1"
    using c by blast+
  from get_tangents_four_on_circles [OF a a b c] a b c1 c2 show ?thesis by blast
qed

subsection \<open>Two point circles\<close>

text \<open>
  C9. For every pair of circles of radius 0 with distinct centres \<open>pA\<close> and \<open>pB\<close>,
  \<open>get_tangents\<close> returns four identical segments, each from \<open>pA\<close> to \<open>pB\<close>: for both
  values of \<open>sign1\<close> the division yields \<open>c = 0\<close> and the square root \<open>h = 1\<close>.
\<close>

theorem get_tangents_point_circles:
  assumes distinct: "(x1, y1) \<noteq> (x2, y2)"
  shows "get_tangents x1 y1 0 x2 y2 0 =
           Inr [(x1, y1, x2, y2), (x1, y1, x2, y2), (x1, y1, x2, y2), (x1, y1, x2, y2)] \<and>
         py_div (0 - sign1 * 0) (sqrt ((x1 - x2)\<^sup>2 + (y1 - y2)\<^sup>2)) = Inr 0 \<and>
         py_sqrt (max 0 (1 - 0 * 0)) = Inr 1"
proof -
  from distinct have assms: "x1 \<noteq> x2 \<or> y1 \<noteq> y2" by simp
  have "(x1 - x2)\<^sup>2 + (y1 - y2)\<^sup>2 > 0"
    using assms by (simp add: sum_power2_gt_zero_iff)
  then have "0 < sqrt ((x1 - x2)\<^sup>2 + (y1 - y2)\<^sup>2)" by (rule real_sqrt_gt_zero)
  then have "sqrt ((x1 - x2)\<^sup>2 + (y1 - y2)\<^sup>2) \<noteq> 0" by linarith
  then have "py_div (0 - sign1 * 0) (sqrt ((x1 - x2)\<^sup>2 + (y1 - y2)\<^sup>2)) = Inr 0"
    by (simp add: py_div_def)
  moreover have "py_sqrt (max 0 (1 - 0 * 0)) = Inr 1" by (simp add: py_sqrt_def)
  ultimately show ?thesis using get_tangents_points [OF assms] by simp
qed

theorem get_tangents_point_circles_witness:
  "(0::real, 0::real) \<noteq> (3, 4) \<and>
   get_tangents 0 0 0 3 4 0 = Inr [(0, 0, 3, 4), (0, 0, 3, 4), (0, 0, 3, 4), (0, 0, 3, 4)]"
  using get_tangents_point_circles [of 0 0 3 4] by simp

section \<open>Properties of the intersection routine, the occlusion query and the visibility test\<close>

lemma roots_loop_total:
  assumes "A \<noteq> 0" and "0 \<le> det"
  shows "roots_loop x1 y1 dx dy A B det lb ub signs acc =
           Inr (acc @ map (\<lambda>t. (x1 + t * dx, y1 + t * dy))
                        (filter (within_bounds lb ub)
                           (map (\<lambda>sign. (- B + sign * sqrt det) / (2 * A)) signs)))"
  using assms
  by (induction signs arbitrary: acc) (simp_all add: py_div_nonzero py_sqrt_nonneg)

lemma circle_line_intersection_total:
  assumes "x1 \<noteq> x2 \<or> y1 \<noteq> y2"
  shows "circle_line_intersection cx cy cr x1 y1 x2 y2 lb ub =
           (let dx = x2 - x1; dy = y2 - y1;
                A = dx\<^sup>2 + dy\<^sup>2;
                B = 2 * (dx * (x1 - cx) + dy * (y1 - cy));
                C = (x1 - cx)\<^sup>2 + (y1 - cy)\<^sup>2 - cr\<^sup>2;
                det = B\<^sup>2 - 4 * A * C
            in Inr (map (\<lambda>t. (x1 + t * dx, y1 + t * dy))
                      (filter (within_bounds lb ub) (line_roots A B det))))"
proof -
  define dx where "dx = x2 - x1"
  define dy where "dy = y2 - y1"
  define A where "A = dx\<^sup>2 + dy\<^sup>2"
  define B where "B = 2 * (dx * (x1 - cx) + dy * (y1 - cy))"
  define C where "C = (x1 - cx)\<^sup>2 + (y1 - cy)\<^sup>2 - cr\<^sup>2"
  define det where "det = B\<^sup>2 - 4 * A * C"
  have "dx \<noteq> 0 \<or> dy \<noteq> 0" using assms by (auto simp: dx_def dy_def)
  then have "A > 0" unfolding A_def by (simp add: sum_power2_gt_zero_iff)
  then have A: "A \<noteq> 0" and A2: "2 * A \<noteq> 0" by simp_all
  have "circle_line_intersection cx cy cr x1 y1 x2 y2 lb ub =
          Inr (map (\<lambda>t. (x1 + t * dx, y1 + t * dy))
                 (filter (within_bounds lb ub) (line_roots A B det)))"
  proof -
    consider "det < 0" | "det = 0" | "det > 0" by linarith
    then show ?thesis
    proof cases
      case 1
      then show ?thesis
        unfolding circle_line_intersection_def Let_def dx_def [symmetric] dy_def [symmetric]
          A_def [symmetric] B_def [symmetric] C_def [symmetric] det_def [symmetric]
        by (simp add: line_roots_def)
    next
      case 2
      then show ?thesis
        unfolding circle_line_intersection_def Let_def dx_def [symmetric] dy_def [symmetric]
          A_def [symmetric] B_def [symmetric] C_def [symmetric] det_def [symmetric]
        by (simp add: line_roots_def py_div_nonzero [OF A2])
    next
      case 3
      then have nn: "0 \<le> det" and n0: "\<not> det < 0" "det \<noteq> 0" by simp_all
      show ?thesis
        unfolding circle_line_intersection_def Let_def dx_def [symmetric] dy_def [symmetric]
          A_def [symmetric] B_def [symmetric] C_def [symmetric] det_def [symmetric]
        by (simp only: n0 if_False roots_loop_total [OF A nn] line_roots_def append_Nil)
    qed
  qed
  then show ?thesis
    unfolding Let_def dx_def A_def B_def C_def det_def dy_def .
qed

lemma degenerate_segment_divides_by_zero:
  "circle_line_intersection cx cy cr x y x y lb ub = Inl ZeroDivisionError"
  by (simp add: circle_line_intersection_def py_div_def)

lemma ray_hits_total:
  assumes "x1 \<noteq> x2 \<or> y1 \<noteq> y2"
  shows "circle_line_intersection cx cy cr x1 y1 x2 y2 True False =
           Inr (ray_hits (cx, cy, cr) (x1, y1, x2, y2))"
  by (simp add: ray_hits_def circle_line_intersection_total [OF assms] Let_def)

lemma nearer_loop_Cons:
  "nearer_loop c ray (i # ps) fi = nearer_loop c ray ps (nearer_step c ray i fi)"
  by (simp add: nearer_step_def)

lemma nearer_step_None: "nearer_step c ray i None = Some (i, c)"
  by (simp add: nearer_step_def)

lemma nearer_step_Some:
  "nearer_step c ray i (Some (q, d)) =
     (if \<bar>fst i - fst ray\<bar> < \<bar>fst q - fst ray\<bar> then Some (i, c) else Some (q, d))"
  by (simp add: nearer_step_def)

lemma nearer_step_cases:
  obtains j e where "nearer_step c ray i fi = Some (j, e)"
    and "\<bar>fst j - fst ray\<bar> \<le> \<bar>fst i - fst ray\<bar>"
    and "(j = i \<and> e = c) \<or> fi = Some (j, e)"
    and "\<And>q d. fi = Some (q, d) \<Longrightarrow> \<bar>fst j - fst ray\<bar> \<le> \<bar>fst q - fst ray\<bar>"
proof (cases fi)
  case None
  show ?thesis
    by (rule that [of i c]) (simp_all add: None nearer_step_None)
next
  case (Some a)
  obtain q d where a: "a = (q, d)" by (cases a)
  show ?thesis
  proof (cases "\<bar>fst i - fst ray\<bar> < \<bar>fst q - fst ray\<bar>")
    case True
    show ?thesis
      by (rule that [of i c]) (use True in \<open>simp_all add: Some a nearer_step_Some\<close>)
  next
    case False
    show ?thesis
      by (rule that [of q d]) (use False in \<open>simp_all add: Some a nearer_step_Some\<close>)
  qed
qed

lemma nearer_loop_None:
  "nearer_loop c ray ps fi = None \<longleftrightarrow> ps = [] \<and> fi = None"
proof (induction ps arbitrary: fi)
  case Nil
  show ?case by simp
next
  case (Cons i ps)
  obtain j e where "nearer_step c ray i fi = Some (j, e)" by (rule nearer_step_cases)
  then show ?case by (simp only: nearer_loop_Cons Cons.IH) simp
qed

lemma nearer_loop_origin:
  "nearer_loop c ray ps fi = Some (p, c') \<Longrightarrow> fi = Some (p, c') \<or> (p \<in> set ps \<and> c' = c)"
proof (induction ps arbitrary: fi)
  case Nil
  then show ?case by simp
next
  case (Cons i ps)
  from Cons.prems have run: "nearer_loop c ray ps (nearer_step c ray i fi) = Some (p, c')"
    by (simp only: nearer_loop_Cons)
  obtain j e where st: "nearer_step c ray i fi = Some (j, e)"
    and src: "(j = i \<and> e = c) \<or> fi = Some (j, e)" by (rule nearer_step_cases)
  from Cons.IH [OF run] have "Some (j, e) = Some (p, c') \<or> (p \<in> set ps \<and> c' = c)"
    by (simp only: st)
  with src show ?case by auto
qed

lemma nearer_loop_le_start:
  "nearer_loop c ray ps (Some (q, d)) = Some (p, c') \<Longrightarrow> \<bar>fst p - fst ray\<bar> \<le> \<bar>fst q - fst ray\<bar>"
proof (induction ps arbitrary: q d)
  case Nil
  then show ?case by simp
next
  case (Cons i ps)
  from Cons.prems have run: "nearer_loop c ray ps (nearer_step c ray i (Some (q, d))) = Some (p, c')"
    by (simp only: nearer_loop_Cons)
  obtain j e where st: "nearer_step c ray i (Some (q, d)) = Some (j, e)"
    and le: "\<bar>fst j - fst ray\<bar> \<le> \<bar>fst q - fst ray\<bar>"
    by (cases "\<bar>fst i - fst ray\<bar> < \<bar>fst q - fst ray\<bar>") (simp_all add: nearer_step_Some)
  from run have "nearer_loop c ray ps (Some (j, e)) = Some (p, c')" by (simp only: st)
  from Cons.IH [OF this] le show ?case by linarith
qed

lemma nearer_loop_le_points:
  "nearer_loop c ray ps fi = Some (p, c') \<Longrightarrow> q \<in> set ps \<Longrightarrow> \<bar>fst p - fst ray\<bar> \<le> \<bar>fst q - fst ray\<bar>"
proof (induction ps arbitrary: fi)
  case Nil
  then show ?case by simp
next
  case (Cons i ps)
  from Cons.prems(1) have run: "nearer_loop c ray ps (nearer_step c ray i fi) = Some (p, c')"
    by (simp only: nearer_loop_Cons)
  show ?case
  proof (cases "q \<in> set ps")
    case True
    from Cons.IH [OF run True] show ?thesis .
  next
    case False
    with Cons.prems(2) have qi: "q = i" by simp
    obtain j e where st: "nearer_step c ray i fi = Some (j, e)"
      and le: "\<bar>fst j - fst ray\<bar> \<le> \<bar>fst i - fst ray\<bar>" by (rule nearer_step_cases)
    from run have "nearer_loop c ray ps (Some (j, e)) = Some (p, c')" by (simp only: st)
    from nearer_loop_le_start [OF this] le show ?thesis unfolding qi by linarith
  qed
qed

lemma first_loop_Cons:
  assumes "x1 \<noteq> x2 \<or> y1 \<noteq> y2"
  shows "first_loop (c # cs) (x1, y1, x2, y2) fi =
           first_loop cs (x1, y1, x2, y2)
             (nearer_loop c (x1, y1, x2, y2) (ray_hits c (x1, y1, x2, y2)) fi)"
proof -
  obtain cx cy cr where c: "c = (cx, cy, cr)" by (cases c)
  show ?thesis
    by (cases "ray_hits (cx, cy, cr) (x1, y1, x2, y2) = []")
       (simp_all add: c ray_hits_total [OF assms])
qed

lemma first_loop_total:
  assumes "x1 \<noteq> x2 \<or> y1 \<noteq> y2"
  shows "\<exists>res. first_loop cs (x1, y1, x2, y2) fi = Inr res"
proof (induction cs arbitrary: fi)
  case Nil
  show ?case by simp
next
  case (Cons c cs)
  show ?case by (simp only: first_loop_Cons [OF assms] Cons.IH)
qed

lemma first_loop_None:
  assumes "x1 \<noteq> x2 \<or> y1 \<noteq> y2"
  shows "first_loop cs (x1, y1, x2, y2) fi = Inr None \<longleftrightarrow>
           fi = None \<and> (\<forall>c \<in> set cs. ray_hits c (x1, y1, x2, y2) = [])"
proof (induction cs arbitrary: fi)
  case Nil
  show ?case by simp
next
  case (Cons c cs)
  show ?case
    by (simp only: first_loop_Cons [OF assms] Cons.IH nearer_loop_None) auto
qed

lemma first_loop_origin:
  assumes "x1 \<noteq> x2 \<or> y1 \<noteq> y2"
  shows "first_loop cs (x1, y1, x2, y2) fi = Inr (Some (p, c')) \<Longrightarrow>
           fi = Some (p, c') \<or> (c' \<in> set cs \<and> p \<in> set (ray_hits c' (x1, y1, x2, y2)))"
proof (induction cs arbitrary: fi)
  case Nil
  then show ?case by simp
next
  case (Cons c cs)
  let ?ray = "(x1, y1, x2, y2)"
  from Cons.prems have run: "first_loop cs ?ray (nearer_loop c ?ray (ray_hits c ?ray) fi) = Inr (Some (p, c'))"
    by (simp only: first_loop_Cons [OF assms])
  from Cons.IH [OF run] show ?case
    using nearer_loop_origin [of c ?ray "ray_hits c ?ray" fi p c'] by auto
qed

lemma first_loop_le_start:
  assumes "x1 \<noteq> x2 \<or> y1 \<noteq> y2"
  shows "first_loop cs (x1, y1, x2, y2) (Some (q, d)) = Inr (Some (p, c')) \<Longrightarrow>
           \<bar>fst p - x1\<bar> \<le> \<bar>fst q - x1\<bar>"
proof (induction cs arbitrary: q d)
  case Nil
  then show ?case by simp
next
  case (Cons c cs)
  let ?ray = "(x1, y1, x2, y2)"
  from Cons.prems
  have run: "first_loop cs ?ray (nearer_loop c ?ray (ray_hits c ?ray) (Some (q, d))) = Inr (Some (p, c'))"
    by (simp only: first_loop_Cons [OF assms])
  obtain j e where step: "nearer_loop c ?ray (ray_hits c ?ray) (Some (q, d)) = Some (j, e)"
    using nearer_loop_None [of c ?ray "ray_hits c ?ray" "Some (q, d)"]
    by (cases "nearer_loop c ?ray (ray_hits c ?ray) (Some (q, d))") auto
  from nearer_loop_le_start [OF step] have le: "\<bar>fst j - x1\<bar> \<le> \<bar>fst q - x1\<bar>" by simp
  from run have "first_loop cs ?ray (Some (j, e)) = Inr (Some (p, c'))" by (simp only: step)
  from Cons.IH [OF this] le show ?case by linarith
qed

lemma first_loop_le_points:
  assumes "x1 \<noteq> x2 \<or> y1 \<noteq> y2"
  shows "first_loop cs (x1, y1, x2, y2) fi = Inr (Some (p, c')) \<Longrightarrow>
           c \<in> set cs \<Longrightarrow> q \<in> set (ray_hits c (x1, y1, x2, y2)) \<Longrightarrow>
           \<bar>fst p - x1\<bar> \<le> \<bar>fst q - x1\<bar>"
proof (induction cs arbitrary: fi)
  case Nil
  then show ?case by simp
next
  case (Cons a cs)
  let ?ray = "(x1, y1, x2, y2)"
  from Cons.prems(1)
  have run: "first_loop cs ?ray (nearer_loop a ?ray (ray_hits a ?ray) fi) = Inr (Some (p, c'))"
    by (simp only: first_loop_Cons [OF assms])
  show ?case
  proof (cases "c \<in> set cs")
    case True
    from Cons.IH [OF run True Cons.prems(3)] show ?thesis .
  next
    case False
    with Cons.prems(2) have ca: "c = a" by simp
    with Cons.prems(3) have q: "q \<in> set (ray_hits a ?ray)" by simp
    then have ne: "ray_hits a ?ray \<noteq> []" by auto
    obtain j e where step: "nearer_loop a ?ray (ray_hits a ?ray) fi = Some (j, e)"
      using nearer_loop_None [of a ?ray "ray_hits a ?ray" fi] ne
      by (cases "nearer_loop a ?ray (ray_hits a ?ray) fi") auto
    from nearer_loop_le_points [OF step q] have le: "\<bar>fst j - x1\<bar> \<le> \<bar>fst q - x1\<bar>" by simp
    from run have "first_loop cs ?ray (Some (j, e)) = Inr (Some (p, c'))" by (simp only: step)
    from first_loop_le_start [OF assms this] le show ?thesis by linarith
  qed
qed

lemma complete_square:
  fixes A B C t :: real
  shows "4 * A * (A * t\<^sup>2 + B * t + C) = (2 * A * t + B)\<^sup>2 - (B\<^sup>2 - 4 * A * C)"
  by (simp add: power2_eq_square algebra_simps)

lemma line_roots_solve:
  fixes A B C t :: real
  assumes A: "A > 0" and det: "det = B\<^sup>2 - 4 * A * C"
  shows "t \<in> set (line_roots A B det) \<longleftrightarrow> A * t\<^sup>2 + B * t + C = 0"
proof -
  have sq: "A * t\<^sup>2 + B * t + C = 0 \<longleftrightarrow> (2 * A * t + B)\<^sup>2 = det"
  proof -
    have "A * t\<^sup>2 + B * t + C = 0 \<longleftrightarrow> 4 * A * (A * t\<^sup>2 + B * t + C) = 0"
      using A by simp
    also have "\<dots> \<longleftrightarrow> (2 * A * t + B)\<^sup>2 - det = 0"
      by (simp only: complete_square det)
    also have "\<dots> \<longleftrightarrow> (2 * A * t + B)\<^sup>2 = det" by simp
    finally show ?thesis .
  qed
  have lin: "t = (- B + u) / (2 * A) \<longleftrightarrow> 2 * A * t + B = u" for u
    using A by (auto simp: field_simps)
  consider "det < 0" | "det = 0" | "det > 0" by linarith
  then show ?thesis
  proof cases
    case 1
    have "(2 * A * t + B)\<^sup>2 \<ge> 0" by simp
    with 1 have "(2 * A * t + B)\<^sup>2 \<noteq> det" by linarith
    with 1 show ?thesis by (simp add: sq line_roots_def)
  next
    case 2
    have "t = - B / (2 * A) \<longleftrightarrow> 2 * A * t + B = 0" using lin [of 0] by simp
    with 2 show ?thesis by (simp add: sq line_roots_def)
  next
    case 3
    then have s: "(sqrt det)\<^sup>2 = det" by simp
    have "(2 * A * t + B)\<^sup>2 = det \<longleftrightarrow> (2 * A * t + B)\<^sup>2 = (sqrt det)\<^sup>2" by (simp only: s)
    also have "\<dots> \<longleftrightarrow> 2 * A * t + B = sqrt det \<or> 2 * A * t + B = - sqrt det"
      by (rule power2_eq_iff)
    also have "\<dots> \<longleftrightarrow> t = (- B + sqrt det) / (2 * A) \<or> t = (- B + - sqrt det) / (2 * A)"
      by (simp only: lin)
    finally have "A * t\<^sup>2 + B * t + C = 0 \<longleftrightarrow>
        t = (- B + sqrt det) / (2 * A) \<or> t = (- B + - sqrt det) / (2 * A)"
      by (simp only: sq)
    with 3 show ?thesis by (auto simp: line_roots_def)
  qed
qed

lemma on_circle_quadratic:
  fixes cx cy cr x1 y1 x2 y2 t :: real
  shows "(x1 + t * (x2 - x1) - cx)\<^sup>2 + (y1 + t * (y2 - y1) - cy)\<^sup>2 = cr\<^sup>2 \<longleftrightarrow>
         ((x2 - x1)\<^sup>2 + (y2 - y1)\<^sup>2) * t\<^sup>2 + 2 * ((x2 - x1) * (x1 - cx) + (y2 - y1) * (y1 - cy)) * t +
           ((x1 - cx)\<^sup>2 + (y1 - cy)\<^sup>2 - cr\<^sup>2) = 0"
proof -
  have "(x1 + t * (x2 - x1) - cx)\<^sup>2 + (y1 + t * (y2 - y1) - cy)\<^sup>2 - cr\<^sup>2 =
        ((x2 - x1)\<^sup>2 + (y2 - y1)\<^sup>2) * t\<^sup>2 + 2 * ((x2 - x1) * (x1 - cx) + (y2 - y1) * (y1 - cy)) * t +
           ((x1 - cx)\<^sup>2 + (y1 - cy)\<^sup>2 - cr\<^sup>2)"
    by (simp add: power2_eq_square algebra_simps)
  then show ?thesis by linarith
qed

lemma ray_hits_geometry:
  assumes "x1 \<noteq> x2 \<or> y1 \<noteq> y2"
  shows "set (ray_hits (cx, cy, cr) (x1, y1, x2, y2)) =
           {(x1 + t * (x2 - x1), y1 + t * (y2 - y1)) | t.
              0 \<le> t \<and> (x1 + t * (x2 - x1) - cx)\<^sup>2 + (y1 + t * (y2 - y1) - cy)\<^sup>2 = cr\<^sup>2}"
proof -
  define A where "A = (x2 - x1)\<^sup>2 + (y2 - y1)\<^sup>2"
  define B where "B = 2 * ((x2 - x1) * (x1 - cx) + (y2 - y1) * (y1 - cy))"
  define C where "C = (x1 - cx)\<^sup>2 + (y1 - cy)\<^sup>2 - cr\<^sup>2"
  define det where "det = B\<^sup>2 - 4 * A * C"
  have "x2 - x1 \<noteq> 0 \<or> y2 - y1 \<noteq> 0" using assms by auto
  then have A: "A > 0" unfolding A_def by (simp add: sum_power2_gt_zero_iff)
  have hits: "ray_hits (cx, cy, cr) (x1, y1, x2, y2) =
          map (\<lambda>t. (x1 + t * (x2 - x1), y1 + t * (y2 - y1)))
            (filter (within_bounds True False) (line_roots A B det))"
    by (simp add: ray_hits_def circle_line_intersection_total [OF assms] Let_def
          A_def B_def C_def det_def)
  have roots: "t \<in> set (line_roots A B det) \<longleftrightarrow>
          (x1 + t * (x2 - x1) - cx)\<^sup>2 + (y1 + t * (y2 - y1) - cy)\<^sup>2 = cr\<^sup>2" for t
  proof -
    have "t \<in> set (line_roots A B det) \<longleftrightarrow> A * t\<^sup>2 + B * t + C = 0"
      by (rule line_roots_solve [OF A det_def])
    also have "\<dots> \<longleftrightarrow> (x1 + t * (x2 - x1) - cx)\<^sup>2 + (y1 + t * (y2 - y1) - cy)\<^sup>2 = cr\<^sup>2"
      unfolding A_def B_def C_def by (rule on_circle_quadratic [symmetric])
    finally show ?thesis .
  qed
  show ?thesis
    unfolding hits by (auto simp: within_bounds_def roots)
qed

lemma get_first_intersection_single:
  assumes "x1 \<noteq> x2 \<or> y1 \<noteq> y2"
  shows "get_first_intersection [c] (x1, y1, x2, y2) =
           Inr (nearer_loop c (x1, y1, x2, y2) (ray_hits c (x1, y1, x2, y2)) None)"
proof -
  have "get_first_intersection [c] (x1, y1, x2, y2) =
          first_loop [] (x1, y1, x2, y2)
            (nearer_loop c (x1, y1, x2, y2) (ray_hits c (x1, y1, x2, y2)) None)"
    unfolding get_first_intersection_def by (rule first_loop_Cons [OF assms])
  then show ?thesis by simp
qed

lemma sqrt_1600: "sqrt 1600 = 40"
  by (rule real_sqrt_unique) simp_all

lemma sqrt_100: "sqrt 100 = 10"
  by (rule real_sqrt_unique) simp_all

lemma hits_above: "ray_hits (10, 5, 1) (0, 5, 20, 5) = [(9, 5), (11, 5)]"
proof -
  have ne: "(0::real) \<noteq> 20 \<or> (5::real) \<noteq> 5" by simp
  show ?thesis
    by (simp add: ray_hits_def circle_line_intersection_total [OF ne] Let_def line_roots_def
          within_bounds_def sqrt_1600)
qed

lemma hits_axis_none: "ray_hits (10, 5, 1) (0, 0, 20, 0) = []"
proof -
  have ne: "(0::real) \<noteq> 20 \<or> (0::real) \<noteq> 0" by simp
  show ?thesis
    by (simp add: ray_hits_def circle_line_intersection_total [OF ne] Let_def line_roots_def)
qed

lemma hits_beyond: "ray_hits (20, 0, 1) (0, 0, 10, 0) = [(19, 0), (21, 0)]"
proof -
  have ne: "(0::real) \<noteq> 10 \<or> (0::real) \<noteq> 0" by simp
  show ?thesis
    by (simp add: ray_hits_def circle_line_intersection_total [OF ne] Let_def line_roots_def
          within_bounds_def sqrt_400)
qed

lemma first_above:
  "get_first_intersection [(10, 5, 1)] (0, 5, 20, 5) = Inr (Some ((9, 5), (10, 5, 1)))"
proof -
  have ne: "(0::real) \<noteq> 20 \<or> (5::real) \<noteq> 5" by simp
  show ?thesis
    by (simp add: get_first_intersection_single [OF ne] hits_above)
qed

lemma first_beyond:
  "get_first_intersection [(20, 0, 1)] (0, 0, 10, 0) = Inr (Some ((19, 0), (20, 0, 1)))"
proof -
  have ne: "(0::real) \<noteq> 10 \<or> (0::real) \<noteq> 0" by simp
  show ?thesis
    by (simp add: get_first_intersection_single [OF ne] hits_beyond)
qed

lemma segment_misses_beyond:
  "circle_line_intersection 20 0 1 0 0 10 0 True True = Inr []"
proof -
  have ne: "(0::real) \<noteq> 10 \<or> (0::real) \<noteq> 0" by simp
  show ?thesis
    by (simp add: circle_line_intersection_total [OF ne] Let_def line_roots_def
          within_bounds_def sqrt_400)
qed

lemma visible_loop_total:
  assumes "\<forall>t \<in> set ts. \<exists>r. get_first_intersection obstacles t = Inr r"
  shows "visible_loop obstacles ts =
           Inr (\<forall>t \<in> set ts. get_first_intersection obstacles t = Inr None)"
  using assms
proof (induction ts)
  case Nil
  show ?case by simp
next
  case (Cons t ts)
  then obtain r where r: "get_first_intersection obstacles t = Inr r" by auto
  from Cons have IH: "visible_loop obstacles ts =
           Inr (\<forall>t \<in> set ts. get_first_intersection obstacles t = Inr None)" by simp
  show ?case by (cases r) (simp_all add: r IH)
qed

lemma get_first_intersection_total:
  assumes "x1 \<noteq> x2 \<or> y1 \<noteq> y2"
  shows "\<exists>res. get_first_intersection circles (x1, y1, x2, y2) = Inr res"
  unfolding get_first_intersection_def by (rule first_loop_total [OF assms])

lemma is_visible_points:
  assumes "sx \<noteq> tx \<or> sy \<noteq> ty"
  shows "is_visible (tx, ty, tr) (sx, sy, sr) obstacles =
           Inr (get_first_intersection obstacles (sx, sy, tx, ty) = Inr None)"
proof -
  have "\<forall>t \<in> set [(sx, sy, tx, ty), (sx, sy, tx, ty), (sx, sy, tx, ty), (sx, sy, tx, ty)].
          \<exists>r. get_first_intersection obstacles t = Inr r"
    using get_first_intersection_total [OF assms] by simp
  from visible_loop_total [OF this] show ?thesis
    by (simp add: is_visible_def get_tangents_points [OF assms])
qed

lemma is_visible_same_point:
  "is_visible (x, y, tr) (x, y, sr) obstacles = Inr True"
  by (simp add: is_visible_def get_tangents_def)

lemma circle_line_intersection_roots:
  assumes "x1 \<noteq> x2 \<or> y1 \<noteq> y2"
  shows "circle_line_intersection cx cy cr x1 y1 x2 y2 lb ub =
           Inr (map (\<lambda>t. (x1 + t * (x2 - x1), y1 + t * (y2 - y1)))
                  (filter (within_bounds lb ub)
                     (line_roots (quadratic_A x1 y1 x2 y2) (quadratic_B cx cy x1 y1 x2 y2)
                        (discriminant cx cy cr x1 y1 x2 y2))))"
  by (simp add: circle_line_intersection_total [OF assms] Let_def quadratic_A_def quadratic_B_def
        quadratic_C_def discriminant_def)

subsection \<open>A segment with coincident endpoints\<close>

text \<open>
  C2, as the code has it. For every circle, every pair of bound flags and every segment
  whose endpoints coincide, \<open>circle_line_intersection\<close> raises \<^verbatim>\<open>ZeroDivisionError\<close>: \<open>A\<close>,
  \<open>B\<close> and \<open>det\<close> are all zero, the branch \<^verbatim>\<open>det == 0\<close> is taken and \<^verbatim>\<open>-B / (2 * A)\<close>
  divides by zero. The routine has no check of its own for a degenerate segment.
\<close>

theorem circle_line_intersection_degenerate_raises:
  "circle_line_intersection cx cy cr x y x y lb ub = Inl ZeroDivisionError"
  by (rule degenerate_segment_divides_by_zero)

text \<open>
  The claim as stated (an explicit invalid-geometry failure instead of a division by
  zero) fails for the unit circle and the segment from \<open>(2, 3)\<close> to \<open>(2, 3)\<close>: the
  division \<^verbatim>\<open>-B / (2 * A)\<close> is carried out with a zero divisor, and its exception is the
  result.
\<close>

theorem circle_line_intersection_degenerate_counterexample:
  "circle_line_intersection 0 0 1 2 3 2 3 True True = Inl ZeroDivisionError \<and>
   py_div (- quadratic_B 0 0 2 3 2 3) (2 * quadratic_A 2 3 2 3) = Inl ZeroDivisionError"
  by (simp add: degenerate_segment_divides_by_zero py_div_def quadratic_A_def)

subsection \<open>Empty results of the intersection routine\<close>

text \<open>
  C6. For every circle and every segment with distinct endpoints,
  \<open>circle_line_intersection\<close> returns the empty list when the discriminant
  \<open>B\<^sup>2 - 4AC\<close> is negative; and when both bound flags are set and both roots
  \<open>(-B \<plusminus> sqrt det) / (2A)\<close> lie outside \<open>[0, 1]\<close>, it returns the empty list although
  the unbounded line meets the circle (the call without bounds returns points).
\<close>

theorem circle_line_intersection_empty:
  assumes distinct: "(x1, y1) \<noteq> (x2, y2)"
  shows "(discriminant cx cy cr x1 y1 x2 y2 < 0 \<longrightarrow>
            circle_line_intersection cx cy cr x1 y1 x2 y2 lb ub = Inr []) \<and>
         (0 \<le> discriminant cx cy cr x1 y1 x2 y2 \<and>
          (\<forall>sign \<in> {- 1, 1}.
             (- quadratic_B cx cy x1 y1 x2 y2 + sign * sqrt (discriminant cx cy cr x1 y1 x2 y2)) /
               (2 * quadratic_A x1 y1 x2 y2) < 0 \<or>
             (- quadratic_B cx cy x1 y1 x2 y2 + sign * sqrt (discriminant cx cy cr x1 y1 x2 y2)) /
               (2 * quadratic_A x1 y1 x2 y2) > 1) \<longrightarrow>
            circle_line_intersection cx cy cr x1 y1 x2 y2 True True = Inr [] \<and>
            (\<exists>ps. circle_line_intersection cx cy cr x1 y1 x2 y2 False False = Inr ps \<and> ps \<noteq> []))"
proof -
  from distinct have assms: "x1 \<noteq> x2 \<or> y1 \<noteq> y2" by simp
  define A where "A = quadratic_A x1 y1 x2 y2"
  define B where "B = quadratic_B cx cy x1 y1 x2 y2"
  define det where "det = discriminant cx cy cr x1 y1 x2 y2"
  note cli = circle_line_intersection_roots [OF assms, of cx cy cr, folded A_def B_def det_def]
  have neg: "circle_line_intersection cx cy cr x1 y1 x2 y2 lb ub = Inr []" if "det < 0"
    using that by (simp add: cli line_roots_def)
  have out: "circle_line_intersection cx cy cr x1 y1 x2 y2 True True = Inr [] \<and>
            (\<exists>ps. circle_line_intersection cx cy cr x1 y1 x2 y2 False False = Inr ps \<and> ps \<noteq> [])"
    if nn: "0 \<le> det"
      and roots: "\<forall>sign \<in> {- 1, 1}. (- B + sign * sqrt det) / (2 * A) < 0 \<or> (- B + sign * sqrt det) / (2 * A) > 1"
  proof (cases "det = 0")
    case True
    from roots have "(- B + 1 * sqrt det) / (2 * A) < 0 \<or> (- B + 1 * sqrt det) / (2 * A) > 1"
      by blast
    then have "- B / (2 * A) < 0 \<or> - B / (2 * A) > 1" by (simp add: True)
    then show ?thesis by (auto simp: cli line_roots_def True within_bounds_def)
  next
    case False
    with nn have pos: "\<not> det < 0" "det \<noteq> 0" by simp_all
    define t1 where "t1 = (- B + (- 1) * sqrt det) / (2 * A)"
    define t2 where "t2 = (- B + 1 * sqrt det) / (2 * A)"
    from roots have o: "t1 < 0 \<or> t1 > 1" "t2 < 0 \<or> t2 > 1"
      unfolding t1_def t2_def by blast+
    have lr: "line_roots A B det = [t1, t2]"
      unfolding line_roots_def t1_def t2_def by (simp only: pos if_False list.map)
    have "filter (within_bounds True True) [t1, t2] = []"
      using o by (auto simp: within_bounds_def)
    moreover have "filter (within_bounds False False) [t1, t2] = [t1, t2]"
      by (simp add: within_bounds_def)
    ultimately show ?thesis by (simp add: cli lr)
  qed
  from neg out show ?thesis unfolding A_def B_def det_def by blast
qed

theorem circle_line_intersection_empty_witness:
  "(0::real, 5::real) \<noteq> (1, 5) \<and> discriminant 0 0 1 0 5 1 5 < 0 \<and>
   circle_line_intersection 0 0 1 0 5 1 5 True False = Inr [] \<and>
   (5::real, 0::real) \<noteq> (10, 0) \<and> 0 \<le> discriminant 0 0 1 5 0 10 0 \<and>
   ((- quadratic_B 0 0 5 0 10 0 + (- 1) * sqrt (discriminant 0 0 1 5 0 10 0)) /
        (2 * quadratic_A 5 0 10 0) < 0 \<or>
    (- quadratic_B 0 0 5 0 10 0 + (- 1) * sqrt (discriminant 0 0 1 5 0 10 0)) /
        (2 * quadratic_A 5 0 10 0) > 1) \<and>
   ((- quadratic_B 0 0 5 0 10 0 + 1 * sqrt (discriminant 0 0 1 5 0 10 0)) /
        (2 * quadratic_A 5 0 10 0) < 0 \<or>
    (- quadratic_B 0 0 5 0 10 0 + 1 * sqrt (discriminant 0 0 1 5 0 10 0)) /
        (2 * quadratic_A 5 0 10 0) > 1) \<and>
   circle_line_intersection 0 0 1 5 0 10 0 True True = Inr [] \<and>
   (\<exists>ps. circle_line_intersection 0 0 1 5 0 10 0 False False = Inr ps \<and> ps \<noteq> [])"
proof -
  have h1: "(0::real, 5::real) \<noteq> (1, 5)" and h2: "(5::real, 0::real) \<noteq> (10, 0)"
    by simp_all
  have d1: "discriminant 0 0 1 0 5 1 5 < 0"
    by (simp add: discriminant_def quadratic_A_def quadratic_B_def quadratic_C_def)
  have d2: "discriminant 0 0 1 5 0 10 0 = 100"
    by (simp add: discriminant_def quadratic_A_def quadratic_B_def quadratic_C_def)
  have r: "\<forall>sign \<in> {- 1, 1}.
      (- quadratic_B 0 0 5 0 10 0 + sign * sqrt (discriminant 0 0 1 5 0 10 0)) /
        (2 * quadratic_A 5 0 10 0) < 0 \<or>
      (- quadratic_B 0 0 5 0 10 0 + sign * sqrt (discriminant 0 0 1 5 0 10 0)) /
        (2 * quadratic_A 5 0 10 0) > 1"
    by (simp add: d2 sqrt_100 quadratic_A_def quadratic_B_def)
  have nn: "0 \<le> discriminant 0 0 1 5 0 10 0" by (simp add: d2)
  from circle_line_intersection_empty [OF h1, of 0 0 1 True False] d1
  have a: "circle_line_intersection 0 0 1 0 5 1 5 True False = Inr []" by blast
  from circle_line_intersection_empty [OF h2, of 0 0 1] nn r
  have b: "circle_line_intersection 0 0 1 5 0 10 0 True True = Inr [] \<and>
     (\<exists>ps. circle_line_intersection 0 0 1 5 0 10 0 False False = Inr ps \<and> ps \<noteq> [])" by blast
  from r have r1: "(- quadratic_B 0 0 5 0 10 0 + (- 1) * sqrt (discriminant 0 0 1 5 0 10 0)) /
        (2 * quadratic_A 5 0 10 0) < 0 \<or>
    (- quadratic_B 0 0 5 0 10 0 + (- 1) * sqrt (discriminant 0 0 1 5 0 10 0)) /
        (2 * quadratic_A 5 0 10 0) > 1" by blast
  from r have r2: "(- quadratic_B 0 0 5 0 10 0 + 1 * sqrt (discriminant 0 0 1 5 0 10 0)) /
        (2 * quadratic_A 5 0 10 0) < 0 \<or>
    (- quadratic_B 0 0 5 0 10 0 + 1 * sqrt (discriminant 0 0 1 5 0 10 0)) /
        (2 * quadratic_A 5 0 10 0) > 1" by blast
  from h1 d1 a h2 nn r1 r2 b show ?thesis by blast
qed

subsection \<open>The first intersection along a ray\<close>

text \<open>
  C3. For every ray with distinct endpoints and every list of obstacle circles,
  \<open>get_first_intersection\<close> returns without raising. Each obstacle is queried with the
  lower bound only, so that its points are exactly the points \<open>p0 + t * (p1 - p0)\<close>
  with \<open>t \<ge> 0\<close> on the circle, with no upper limit on \<open>t\<close>. The result is \<^verbatim>\<open>None\<close>
  exactly when no obstacle has such a point; otherwise it is a point of some obstacle of
  the list, paired with that obstacle, whose distance \<open>\<bar>x - x1\<bar>\<close> in the x-coordinate
  from the ray's origin is minimal among the points of all obstacles.
\<close>

theorem get_first_intersection_nearest_by_x:
  assumes distinct: "(x1, y1) \<noteq> (x2, y2)"
  shows "\<exists>res. get_first_intersection circles (x1, y1, x2, y2) = Inr res \<and>
           (\<forall>(cx, cy, cr) \<in> set circles.
              circle_line_intersection cx cy cr x1 y1 x2 y2 True False =
                Inr (ray_hits (cx, cy, cr) (x1, y1, x2, y2)) \<and>
              set (ray_hits (cx, cy, cr) (x1, y1, x2, y2)) =
                {(x1 + t * (x2 - x1), y1 + t * (y2 - y1)) | t.
                   0 \<le> t \<and> (x1 + t * (x2 - x1) - cx)\<^sup>2 + (y1 + t * (y2 - y1) - cy)\<^sup>2 = cr\<^sup>2}) \<and>
           (res = None \<longleftrightarrow> (\<forall>c \<in> set circles. ray_hits c (x1, y1, x2, y2) = [])) \<and>
           (\<forall>p c. res = Some (p, c) \<longrightarrow>
              c \<in> set circles \<and> p \<in> set (ray_hits c (x1, y1, x2, y2)) \<and>
              (\<forall>c' \<in> set circles. \<forall>q \<in> set (ray_hits c' (x1, y1, x2, y2)).
                 \<bar>fst p - x1\<bar> \<le> \<bar>fst q - x1\<bar>))"
proof -
  from distinct have assms: "x1 \<noteq> x2 \<or> y1 \<noteq> y2" by simp
  let ?ray = "(x1, y1, x2, y2)"
  obtain res where res: "first_loop circles ?ray None = Inr res"
    using first_loop_total [OF assms] by blast
  have g: "get_first_intersection circles ?ray = Inr res"
    by (simp only: get_first_intersection_def res)
  have calls: "\<forall>(cx, cy, cr) \<in> set circles.
              circle_line_intersection cx cy cr x1 y1 x2 y2 True False =
                Inr (ray_hits (cx, cy, cr) ?ray) \<and>
              set (ray_hits (cx, cy, cr) ?ray) =
                {(x1 + t * (x2 - x1), y1 + t * (y2 - y1)) | t.
                   0 \<le> t \<and> (x1 + t * (x2 - x1) - cx)\<^sup>2 + (y1 + t * (y2 - y1) - cy)\<^sup>2 = cr\<^sup>2}"
    using ray_hits_total [OF assms] ray_hits_geometry [OF assms] by blast
  have none: "res = None \<longleftrightarrow> (\<forall>c \<in> set circles. ray_hits c ?ray = [])"
    using first_loop_None [OF assms, of circles None] by (simp add: res)
  have some: "c \<in> set circles \<and> p \<in> set (ray_hits c ?ray) \<and>
              (\<forall>c' \<in> set circles. \<forall>q \<in> set (ray_hits c' ?ray). \<bar>fst p - x1\<bar> \<le> \<bar>fst q - x1\<bar>)"
    if "res = Some (p, c)" for p c
  proof -
    from that res have run: "first_loop circles ?ray None = Inr (Some (p, c))" by simp
    from first_loop_origin [OF assms run]
    have "c \<in> set circles \<and> p \<in> set (ray_hits c ?ray)" by simp
    moreover have "\<forall>c' \<in> set circles. \<forall>q \<in> set (ray_hits c' ?ray). \<bar>fst p - x1\<bar> \<le> \<bar>fst q - x1\<bar>"
      using first_loop_le_points [OF assms run] by blast
    ultimately show ?thesis by blast
  qed
  from g calls none some show ?thesis by blast
qed

theorem get_first_intersection_nearest_by_x_witness:
  "(0::real, 0::real) \<noteq> (10, 0) \<and>
   (\<exists>res. get_first_intersection [(20, 0, 1)] (0, 0, 10, 0) = Inr res \<and>
           (\<forall>(cx, cy, cr) \<in> set [(20, 0, 1)].
              circle_line_intersection cx cy cr 0 0 10 0 True False =
                Inr (ray_hits (cx, cy, cr) (0, 0, 10, 0)) \<and>
              set (ray_hits (cx, cy, cr) (0, 0, 10, 0)) =
                {(0 + t * (10 - 0), 0 + t * (0 - 0)) | t.
                   0 \<le> t \<and> (0 + t * (10 - 0) - cx)\<^sup>2 + (0 + t * (0 - 0) - cy)\<^sup>2 = cr\<^sup>2}) \<and>
           (res = None \<longleftrightarrow> (\<forall>c \<in> set [(20, 0, 1)]. ray_hits c (0, 0, 10, 0) = [])) \<and>
           (\<forall>p c. res = Some (p, c) \<longrightarrow>
              c \<in> set [(20, 0, 1)] \<and> p \<in> set (ray_hits c (0, 0, 10, 0)) \<and>
              (\<forall>c' \<in> set [(20, 0, 1)]. \<forall>q \<in> set (ray_hits c' (0, 0, 10, 0)).
                 \<bar>fst p - 0\<bar> \<le> \<bar>fst q - 0\<bar>)))"
proof -
  have h: "(0::real, 0::real) \<noteq> (10, 0)" by simp
  from h get_first_intersection_nearest_by_x [OF h, of "[(20, 0, 1)]"] show ?thesis by (rule conjI)
qed

subsection \<open>Visibility\<close>

text \<open>
  C1, as the code has it. For every target circle, source circle and list of obstacles,
  \<open>is_visible\<close> computes the tangents between the centres of source and target, with
  both radii replaced by 0 (the radii of the two circles are not read), and returns
  false if and only if at least one of these tangents has a hit among the obstacles;
  otherwise it returns true. It never raises.
\<close>

theorem is_visible_between_centres:
  "\<exists>ts. get_tangents sx sy 0 tx ty 0 = Inr ts \<and>
        is_visible (tx, ty, tr) (sx, sy, sr) obstacles =
          Inr (\<not> (\<exists>t \<in> set ts. \<exists>hit. get_first_intersection obstacles t = Inr (Some hit)))"
proof (cases "sx \<noteq> tx \<or> sy \<noteq> ty")
  case True
  obtain res where res: "get_first_intersection obstacles (sx, sy, tx, ty) = Inr res"
    using get_first_intersection_total [OF True] by blast
  have "(res = None) = (\<not> (\<exists>hit. res = Some hit))" by (cases res) auto
  then show ?thesis
    by (simp add: get_tangents_points [OF True] is_visible_points [OF True] res)
next
  case False
  then have same: "sx = tx" "sy = ty" by simp_all
  have "get_tangents tx ty 0 tx ty 0 = Inr []" by (simp add: get_tangents_def)
  then show ?thesis by (simp add: same is_visible_same_point)
qed

theorem is_visible_between_centres_witness:
  "\<exists>ts. get_tangents 0 0 0 10 0 0 = Inr ts \<and>
        is_visible (10, 0, 5) (0, 0, 5) [(20, 0, 1)] =
          Inr (\<not> (\<exists>t \<in> set ts. \<exists>hit. get_first_intersection [(20, 0, 1)] t = Inr (Some hit)))"
  by (rule is_visible_between_centres)

text \<open>
  The claim as stated (tangents of the two circles with their radii) fails for the
  circles \<open>(0, 0, 5)\<close> and \<open>(20, 0, 5)\<close> with the obstacle \<open>(10, 5, 1)\<close>: the tangent
  \<open>y = 5\<close> of the two circles is hit by the obstacle at \<open>(9, 5)\<close>, and \<open>is_visible\<close>
  returns true.
\<close>

theorem is_visible_radii_counterexample:
  "get_tangents 0 0 5 20 0 5 =
     Inr [(0, 5, 20, 5), (0, - 5, 20, - 5),
          (5 / 2, 5 * sqrt 3 / 2, 35 / 2, - (5 * sqrt 3 / 2)),
          (5 / 2, - (5 * sqrt 3 / 2), 35 / 2, 5 * sqrt 3 / 2)] \<and>
   get_first_intersection [(10, 5, 1)] (0, 5, 20, 5) = Inr (Some ((9, 5), (10, 5, 1))) \<and>
   is_visible (20, 0, 5) (0, 0, 5) [(10, 5, 1)] = Inr True"
proof -
  have ne: "(0::real) \<noteq> 20 \<or> (0::real) \<noteq> 0" by simp
  have "get_first_intersection [(10, 5, 1)] (0, 0, 20, 0) = Inr None"
    by (simp add: get_first_intersection_single [OF ne] hits_axis_none)
  then have "is_visible (20, 0, 5) (0, 0, 5) [(10, 5, 1)] = Inr True"
    by (simp add: is_visible_points [OF ne])
  with tangents_scenario first_above show ?thesis by blast
qed

text \<open>
  C8. There are a source, a target and a single obstacle circle strictly beyond the
  target on the line from source to target (its centre at parameter \<open>s > 1\<close>, the
  target outside it, no intersection with the segment from source to target) for which
  \<open>is_visible\<close> returns false: the ray of the occlusion query has no upper bound and
  reaches the obstacle behind the target.
\<close>

theorem is_visible_blocked_beyond_target:
  "\<exists>sx sy tx ty ox oy r s.
     1 < s \<and> ox = sx + s * (tx - sx) \<and> oy = sy + s * (ty - sy) \<and> 0 < r \<and>
     r\<^sup>2 < (ox - tx)\<^sup>2 + (oy - ty)\<^sup>2 \<and>
     circle_line_intersection ox oy r sx sy tx ty True True = Inr [] \<and>
     get_first_intersection [(ox, oy, r)] (sx, sy, tx, ty) = Inr (Some ((19, 0), (ox, oy, r))) \<and>
     is_visible (tx, ty, 0) (sx, sy, 0) [(ox, oy, r)] = Inr False"
proof -
  have ne: "(0::real) \<noteq> 10 \<or> (0::real) \<noteq> 0" by simp
  have v: "is_visible (10, 0, 0) (0, 0, 0) [(20, 0, 1)] = Inr False"
    by (simp add: is_visible_points [OF ne] first_beyond)
  have "(1::real) < 2 \<and> (20::real) = 0 + 2 * (10 - 0) \<and> (0::real) = 0 + 2 * (0 - 0) \<and> (0::real) < 1 \<and>
     (1::real)\<^sup>2 < (20 - 10)\<^sup>2 + (0 - 0)\<^sup>2 \<and>
     circle_line_intersection 20 0 1 0 0 10 0 True True = Inr [] \<and>
     get_first_intersection [(20, 0, 1)] (0, 0, 10, 0) = Inr (Some ((19, 0), (20, 0, 1))) \<and>
     is_visible (10, 0, 0) (0, 0, 0) [(20, 0, 1)] = Inr False"
    using segment_misses_beyond first_beyond v by simp
  then show ?thesis by blast
qed

subsection \<open>Two circles of radius 5 and an obstacle between them\<close>

lemma ray_hits_nonempty:
  assumes "x1 \<noteq> x2 \<or> y1 \<noteq> y2" and "0 \<le> t"
    and "(x1 + t * (x2 - x1) - cx)\<^sup>2 + (y1 + t * (y2 - y1) - cy)\<^sup>2 = cr\<^sup>2"
  shows "ray_hits (cx, cy, cr) (x1, y1, x2, y2) \<noteq> []"
proof -
  have "(x1 + t * (x2 - x1), y1 + t * (y2 - y1)) \<in> set (ray_hits (cx, cy, cr) (x1, y1, x2, y2))"
    unfolding ray_hits_geometry [OF assms(1)] using assms(2,3) by blast
  then show ?thesis by auto
qed

lemma get_first_intersection_hit:
  assumes "x1 \<noteq> x2 \<or> y1 \<noteq> y2" and "c \<in> set circles" and "ray_hits c (x1, y1, x2, y2) \<noteq> []"
  shows "\<exists>hit. get_first_intersection circles (x1, y1, x2, y2) = Inr (Some hit)"
proof -
  obtain res where res: "get_first_intersection circles (x1, y1, x2, y2) = Inr res"
    using get_first_intersection_total [OF assms(1)] by blast
  have "res \<noteq> None"
    using first_loop_None [OF assms(1), of circles None] assms(2,3) res
    unfolding get_first_intersection_def by auto
  with res show ?thesis by auto
qed

lemma get_first_intersection_miss:
  assumes "x1 \<noteq> x2 \<or> y1 \<noteq> y2" and "\<forall>c \<in> set circles. ray_hits c (x1, y1, x2, y2) = []"
  shows "get_first_intersection circles (x1, y1, x2, y2) = Inr None"
  using first_loop_None [OF assms(1), of circles None] assms(2)
  unfolding get_first_intersection_def by simp

lemma external_misses:
  "ray_hits (10, 0, 3) (0, 5, 20, 5) = []" "ray_hits (10, 0, 3) (0, - 5, 20, - 5) = []"
proof -
  have ne: "(0::real) \<noteq> 20 \<or> (5::real) \<noteq> 5" "(0::real) \<noteq> 20 \<or> (- 5::real) \<noteq> - 5" by simp_all
  show "ray_hits (10, 0, 3) (0, 5, 20, 5) = []"
    by (simp add: ray_hits_def circle_line_intersection_total [OF ne(1)] Let_def line_roots_def)
  show "ray_hits (10, 0, 3) (0, - 5, 20, - 5) = []"
    by (simp add: ray_hits_def circle_line_intersection_total [OF ne(2)] Let_def line_roots_def)
qed

lemma internal_hits:
  "ray_hits (10, 0, 3) (5 / 2, 5 * sqrt 3 / 2, 35 / 2, - (5 * sqrt 3 / 2)) \<noteq> []"
  "ray_hits (10, 0, 3) (5 / 2, - (5 * sqrt 3 / 2), 35 / 2, 5 * sqrt 3 / 2) \<noteq> []"
proof -
  define u where "u = sqrt 3"
  have uu: "u * u = 3" unfolding u_def by simp
  have u0: "0 \<le> u" unfolding u_def by simp
  define t where "t = 1 / 2 + u / 10"
  have t0: "0 \<le> t" unfolding t_def using u0 by simp
  have ne: "(5 / 2 :: real) \<noteq> 35 / 2 \<or> 5 * u / 2 \<noteq> - (5 * u / 2)"
    "(5 / 2 :: real) \<noteq> 35 / 2 \<or> - (5 * u / 2) \<noteq> 5 * u / 2" by simp_all
  have x: "5 / 2 + t * (35 / 2 - 5 / 2) - 10 = 3 * u / 2"
    unfolding t_def by (simp add: algebra_simps)
  have y1: "5 * u / 2 + t * (- (5 * u / 2) - 5 * u / 2) - 0 = - (3 / 2)"
  proof -
    have "5 * u / 2 + t * (- (5 * u / 2) - 5 * u / 2) - 0 = - ((u * u) / 2)"
      unfolding t_def by (simp add: algebra_simps)
    then show ?thesis by (simp only: uu)
  qed
  have y2: "- (5 * u / 2) + t * (5 * u / 2 - - (5 * u / 2)) - 0 = 3 / 2"
  proof -
    have "- (5 * u / 2) + t * (5 * u / 2 - - (5 * u / 2)) - 0 = (u * u) / 2"
      unfolding t_def by (simp add: algebra_simps)
    then show ?thesis by (simp only: uu)
  qed
  have sq: "(3 * u / 2)\<^sup>2 = 27 / 4"
  proof -
    have "(3 * u / 2)\<^sup>2 = 9 * (u * u) / 4" by (simp add: power2_eq_square)
    then show ?thesis by (simp add: uu)
  qed
  have c1: "(5 / 2 + t * (35 / 2 - 5 / 2) - 10)\<^sup>2 +
            (5 * u / 2 + t * (- (5 * u / 2) - 5 * u / 2) - 0)\<^sup>2 = 3\<^sup>2"
    by (simp only: x y1 sq) (simp add: power2_eq_square)
  have c2: "(5 / 2 + t * (35 / 2 - 5 / 2) - 10)\<^sup>2 +
            (- (5 * u / 2) + t * (5 * u / 2 - - (5 * u / 2)) - 0)\<^sup>2 = 3\<^sup>2"
    by (simp only: x y2 sq) (simp add: power2_eq_square)
  show "ray_hits (10, 0, 3) (5 / 2, 5 * sqrt 3 / 2, 35 / 2, - (5 * sqrt 3 / 2)) \<noteq> []"
    using ray_hits_nonempty [OF ne(1) t0 c1] unfolding u_def .
  show "ray_hits (10, 0, 3) (5 / 2, - (5 * sqrt 3 / 2), 35 / 2, 5 * sqrt 3 / 2) \<noteq> []"
    using ray_hits_nonempty [OF ne(2) t0 c2] unfolding u_def .
qed

text \<open>
  C7. For circle A with centre \<open>(0, 0)\<close> and radius 5 and circle B with centre \<open>(20, 0)\<close>
  and radius 5, \<open>get_tangents\<close> returns exactly 4 segments: the two external tangents on
  the lines \<open>y = 5\<close> and \<open>y = -5\<close>, and the two internal tangents, each of which passes
  through the midpoint \<open>(10, 0)\<close> at parameter \<open>1/2\<close>. With the single obstacle of
  centre \<open>(10, 0)\<close> and radius 3, \<open>get_first_intersection\<close> reports a hit on each of the
  two internal tangents and none on either external tangent.
\<close>

theorem scenario_tangents_and_hits:
  "get_tangents 0 0 5 20 0 5 =
     Inr [(0, 5, 20, 5), (0, - 5, 20, - 5),
          (5 / 2, 5 * sqrt 3 / 2, 35 / 2, - (5 * sqrt 3 / 2)),
          (5 / 2, - (5 * sqrt 3 / 2), 35 / 2, 5 * sqrt 3 / 2)] \<and>
   (5 / 2 + 1 / 2 * (35 / 2 - 5 / 2), 5 * sqrt 3 / 2 + 1 / 2 * (- (5 * sqrt 3 / 2) - 5 * sqrt 3 / 2)) =
     (10::real, 0::real) \<and>
   (5 / 2 + 1 / 2 * (35 / 2 - 5 / 2), - (5 * sqrt 3 / 2) + 1 / 2 * (5 * sqrt 3 / 2 - - (5 * sqrt 3 / 2))) =
     (10::real, 0::real) \<and>
   get_first_intersection [(10, 0, 3)] (0, 5, 20, 5) = Inr None \<and>
   get_first_intersection [(10, 0, 3)] (0, - 5, 20, - 5) = Inr None \<and>
   (\<exists>hit. get_first_intersection [(10, 0, 3)]
            (5 / 2, 5 * sqrt 3 / 2, 35 / 2, - (5 * sqrt 3 / 2)) = Inr (Some hit)) \<and>
   (\<exists>hit. get_first_intersection [(10, 0, 3)]
            (5 / 2, - (5 * sqrt 3 / 2), 35 / 2, 5 * sqrt 3 / 2) = Inr (Some hit))"
proof -
  have ne: "(0::real) \<noteq> 20 \<or> (5::real) \<noteq> 5" "(0::real) \<noteq> 20 \<or> (- 5::real) \<noteq> - 5"
    "(5 / 2 :: real) \<noteq> 35 / 2 \<or> 5 * sqrt 3 / 2 \<noteq> - (5 * sqrt 3 / 2)"
    "(5 / 2 :: real) \<noteq> 35 / 2 \<or> - (5 * sqrt 3 / 2) \<noteq> 5 * sqrt 3 / 2" by simp_all
  have m1: "(5 / 2 + 1 / 2 * (35 / 2 - 5 / 2), 5 * sqrt 3 / 2 + 1 / 2 * (- (5 * sqrt 3 / 2) - 5 * sqrt 3 / 2)) = (10::real, 0::real)"
    by simp
  have m2: "(5 / 2 + 1 / 2 * (35 / 2 - 5 / 2), - (5 * sqrt 3 / 2) + 1 / 2 * (5 * sqrt 3 / 2 - - (5 * sqrt 3 / 2))) = (10::real, 0::real)"
    by simp
  have e1: "get_first_intersection [(10, 0, 3)] (0, 5, 20, 5) = Inr None"
    by (rule get_first_intersection_miss [OF ne(1)]) (simp add: external_misses)
  have e2: "get_first_intersection [(10, 0, 3)] (0, - 5, 20, - 5) = Inr None"
    by (rule get_first_intersection_miss [OF ne(2)]) (simp add: external_misses)
  have i1: "\<exists>hit. get_first_intersection [(10, 0, 3)]
            (5 / 2, 5 * sqrt 3 / 2, 35 / 2, - (5 * sqrt 3 / 2)) = Inr (Some hit)"
    by (rule get_first_intersection_hit [OF ne(3) _ internal_hits(1)]) simp
  have i2: "\<exists>hit. get_first_intersection [(10, 0, 3)]
            (5 / 2, - (5 * sqrt 3 / 2), 35 / 2, 5 * sqrt 3 / 2) = Inr (Some hit)"
    by (rule get_first_intersection_hit [OF ne(4) _ internal_hits(2)]) simp
  from tangents_scenario m1 m2 e1 e2 i1 i2 show ?thesis by (intro conjI)
qed

end
